theory Spec2Isabelle
  imports Complex_Main "HOL-Library.Sublist"
begin

section \<open>Parcel tracker: the route registry, the resolver and the progress index\<close>

text \<open>
  The development follows \<^verbatim>\<open>src/my-app/src/App.jsx\<close>. Strings are byte lists, the
  UTF-8 encoding of the program's strings; the identifiers, names and messages of the
  program are ASCII. Timestamps are strings that
  the caller supplies (the program reads the clock at resolution time).
\<close>

subsection \<open>Route data\<close>

type_synonym coordinate = "real \<times> real"

record route =
  trackingId :: string
  status :: string
  carrier :: string
  origin :: string
  destination :: string
  path :: "coordinate list"

record tracking_info = route +
  lastUpdated :: string

definition CHN123 :: route where
  "CHN123 = \<lparr> trackingId = ''CHN123'', status = ''In Transit'',
     carrier = ''Phoenix Express'', origin = ''Chennai Central'',
     destination = ''Adyar, Chennai'',
     path = [(13.0827, 80.2707), (13.0604, 80.2496), (13.0431, 80.2460),
             (13.0287, 80.2478), (13.0214, 80.2526), (13.0067, 80.2570),
             (13.0012, 80.2551)] \<rparr>"

definition BLR555 :: route where
  "BLR555 = \<lparr> trackingId = ''BLR555'', status = ''Out for Delivery'',
     carrier = ''SouthLine Logistics'', origin = ''Bengaluru'',
     destination = ''Mysuru'',
     path = [(12.9716, 77.5946), (12.8000, 77.4000), (12.6000, 76.9000),
             (12.4500, 76.6500), (12.2958, 76.6394)] \<rparr>"

definition MUM777 :: route where
  "MUM777 = \<lparr> trackingId = ''MUM777'', status = ''In Transit'',
     carrier = ''Western Courier'', origin = ''Mumbai'',
     destination = ''Pune'',
     path = [(19.0760, 72.8777), (18.9500, 73.1500), (18.8000, 73.3000),
             (18.6500, 73.5000), (18.5204, 73.8567)] \<rparr>"

text \<open>
  \<^verbatim>\<open>ROUTES\<close> is an object literal with three own keys, read by \<^verbatim>\<open>ROUTES[key]\<close>.
  Every key the program looks up has passed through \<^verbatim>\<open>toUpperCase\<close>, and every
  property name that a plain object inherits contains a lower-case letter, so the lookup
  finds exactly the own keys: a finite map.
\<close>

definition ROUTES :: "string \<rightharpoonup> route" where
  "ROUTES = map_of [(''CHN123'', CHN123), (''BLR555'', BLR555), (''MUM777'', MUM777)]"

subsection \<open>String helpers of the language\<close>

text \<open>
  A string of the program is modelled by its UTF-8 bytes. \<^verbatim>\<open>String.prototype.toUpperCase\<close>
  maps the letters a to z to A to Z; the bytes of other characters are left as they
  are (the language maps some non-ASCII letters to other characters, none of which makes
  a key of the registry, so no lookup changes).
\<close>

definition upper_char :: "char \<Rightarrow> char" where
  "upper_char c =
     (case map_of (zip ''abcdefghijklmnopqrstuvwxyz'' ''ABCDEFGHIJKLMNOPQRSTUVWXYZ'') c of
        Some u \<Rightarrow> u
      | None \<Rightarrow> c)"

definition toUpperCase :: "string \<Rightarrow> string" where
  "toUpperCase s = map upper_char s"

text \<open>
  \<^verbatim>\<open>String.prototype.trim\<close> removes white space and line terminators from both ends.
  These are the 25 code points U+0009 to U+000D, U+0020, U+00A0, U+1680, U+2000 to
  U+200A, U+2028, U+2029, U+202F, U+205F, U+3000 and U+FEFF, here in UTF-8.
  \<open>strip_left tbl s\<close> removes one leading entry of the table, \<open>trim_left tbl s\<close> all of
  them; the end of the string is trimmed on the reversed string with the reversed
  encodings.
\<close>

definition white_space :: "string list" where
  "white_space =
     [[CHR 0x09], [CHR 0x0A], [CHR 0x0B], [CHR 0x0C], [CHR 0x0D], [CHR 0x20],
      [CHR 0xC2, CHR 0xA0],
      [CHR 0xE1, CHR 0x9A, CHR 0x80],
      [CHR 0xE2, CHR 0x80, CHR 0x80], [CHR 0xE2, CHR 0x80, CHR 0x81],
      [CHR 0xE2, CHR 0x80, CHR 0x82], [CHR 0xE2, CHR 0x80, CHR 0x83],
      [CHR 0xE2, CHR 0x80, CHR 0x84], [CHR 0xE2, CHR 0x80, CHR 0x85],
      [CHR 0xE2, CHR 0x80, CHR 0x86], [CHR 0xE2, CHR 0x80, CHR 0x87],
      [CHR 0xE2, CHR 0x80, CHR 0x88], [CHR 0xE2, CHR 0x80, CHR 0x89],
      [CHR 0xE2, CHR 0x80, CHR 0x8A],
      [CHR 0xE2, CHR 0x80, CHR 0xA8], [CHR 0xE2, CHR 0x80, CHR 0xA9],
      [CHR 0xE2, CHR 0x80, CHR 0xAF],
      [CHR 0xE2, CHR 0x81, CHR 0x9F],
      [CHR 0xE3, CHR 0x80, CHR 0x80],
      [CHR 0xEF, CHR 0xBB, CHR 0xBF]]"

definition strip_left :: "string list \<Rightarrow> string \<Rightarrow> string option" where
  "strip_left tbl s =
     map_option (\<lambda>w. drop (length w) s) (find (\<lambda>w. w \<noteq> [] \<and> prefix w s) tbl)"

function trim_left :: "string list \<Rightarrow> string \<Rightarrow> string" where
  "trim_left tbl s = (case strip_left tbl s of None \<Rightarrow> s | Some r \<Rightarrow> trim_left tbl r)"
  by pat_completeness auto
termination
proof (relation "measure (\<lambda>(tbl, s). length s)")
  fix tbl :: "string list" and s r :: string
  assume "strip_left tbl s = Some r"
  then obtain w where "w \<noteq> []" "prefix w s" "r = drop (length w) s"
    by (auto simp add: strip_left_def find_Some_iff)
  then have "length r < length s"
    by (cases s) (auto simp add: prefix_def)
  then show "((tbl, r), (tbl, s)) \<in> measure (\<lambda>(tbl, s). length s)" by simp
qed simp

declare trim_left.simps [simp del]

definition trimStart :: "string \<Rightarrow> string" where
  "trimStart s = trim_left white_space s"

definition trimEnd :: "string \<Rightarrow> string" where
  "trimEnd s = rev (trim_left (map rev white_space) (rev s))"

definition trim :: "string \<Rightarrow> string" where
  "trim s = trimEnd (trimStart s)"

text \<open>A string that consists of white space only.\<close>

definition blank :: "string \<Rightarrow> bool" where
  "blank w = (\<exists>ws. set ws \<subseteq> set white_space \<and> w = concat ws)"

subsection \<open>The resolver\<close>

text \<open>
  \<^verbatim>\<open>fetchTracking\<close> returns a promise that settles after 500 ms: rejected with
  \<^verbatim>\<open>new Error("Tracking ID not found")\<close> when the registry has no entry under the
  upper-cased id, fulfilled with the entry extended by the time stamp otherwise. The
  model gives the settled result, \<open>Inl\<close> for the rejection; \<open>now\<close> is the clock reading.
\<close>

datatype js_error = Error string

definition fetchTracking :: "string \<Rightarrow> string \<Rightarrow> js_error + tracking_info" where
  "fetchTracking now tid =
     (case ROUTES (toUpperCase tid) of
        None \<Rightarrow> Inl (Error ''Tracking ID not found'')
      | Some data \<Rightarrow> Inr (route.extend data \<lparr> lastUpdated = now \<rparr>))"

subsection \<open>Numbers\<close>

text \<open>
  A JavaScript number is an IEEE 754 double. The model keeps the three kinds of value
  that the program distinguishes: not-a-number, the two infinities, and the finite
  values, which are idealised as exact reals: rounding, overflow and the sign of zero
  are not represented (a zero divisor counts as positive zero). Each operator below
  follows the case table of the language for the special values.

  Where the idealisation departs from doubles: a sum of doubles depends on the order of
  the additions, a quotient is rounded before \<^verbatim>\<open>Math.floor\<close> sees it, and the rounded
  value of the local \<^verbatim>\<open>a\<close> of \<^verbatim>\<open>haversineMeters\<close> can exceed 1 for points that are
  nearly antipodal, where \<^verbatim>\<open>Math.sqrt(1 - a)\<close> and with it the distance is
  \<^verbatim>\<open>NaN\<close>. The properties below are stated so that they do not rest on these points,
  or say where they do.
\<close>

datatype number = NaN | PosInfinity | NegInfinity | Fin real

fun isFinite :: "number \<Rightarrow> bool" where
  "isFinite (Fin x) = True"
| "isFinite _ = False"

fun js_neg :: "number \<Rightarrow> number" where
  "js_neg NaN = NaN"
| "js_neg PosInfinity = NegInfinity"
| "js_neg NegInfinity = PosInfinity"
| "js_neg (Fin x) = Fin (- x)"

fun js_add :: "number \<Rightarrow> number \<Rightarrow> number" where
  "js_add (Fin x) (Fin y) = Fin (x + y)"
| "js_add NaN _ = NaN"
| "js_add _ NaN = NaN"
| "js_add PosInfinity NegInfinity = NaN"
| "js_add NegInfinity PosInfinity = NaN"
| "js_add PosInfinity _ = PosInfinity"
| "js_add _ PosInfinity = PosInfinity"
| "js_add NegInfinity _ = NegInfinity"
| "js_add _ NegInfinity = NegInfinity"

definition js_sub :: "number \<Rightarrow> number \<Rightarrow> number" where
  "js_sub a b = js_add a (js_neg b)"

fun js_mul :: "number \<Rightarrow> number \<Rightarrow> number" where
  "js_mul (Fin x) (Fin y) = Fin (x * y)"
| "js_mul NaN _ = NaN"
| "js_mul _ NaN = NaN"
| "js_mul PosInfinity (Fin y) =
     (if y = 0 then NaN else if 0 < y then PosInfinity else NegInfinity)"
| "js_mul NegInfinity (Fin y) =
     (if y = 0 then NaN else if 0 < y then NegInfinity else PosInfinity)"
| "js_mul (Fin x) PosInfinity =
     (if x = 0 then NaN else if 0 < x then PosInfinity else NegInfinity)"
| "js_mul (Fin x) NegInfinity =
     (if x = 0 then NaN else if 0 < x then NegInfinity else PosInfinity)"
| "js_mul PosInfinity PosInfinity = PosInfinity"
| "js_mul PosInfinity NegInfinity = NegInfinity"
| "js_mul NegInfinity PosInfinity = NegInfinity"
| "js_mul NegInfinity NegInfinity = PosInfinity"

fun js_div :: "number \<Rightarrow> number \<Rightarrow> number" where
  "js_div (Fin x) (Fin y) =
     (if y = 0 then (if x = 0 then NaN else if 0 < x then PosInfinity else NegInfinity)
      else Fin (x / y))"
| "js_div NaN _ = NaN"
| "js_div _ NaN = NaN"
| "js_div (Fin x) _ = Fin 0"
| "js_div PosInfinity (Fin y) = (if 0 \<le> y then PosInfinity else NegInfinity)"
| "js_div NegInfinity (Fin y) = (if 0 \<le> y then NegInfinity else PosInfinity)"
| "js_div _ _ = NaN"

text \<open>The remainder operator \<^verbatim>\<open>%\<close>: the result has the sign of the dividend.\<close>

definition trunc :: "real \<Rightarrow> int" where
  "trunc z = (if 0 \<le> z then \<lfloor>z\<rfloor> else \<lceil>z\<rceil>)"

fun js_rem :: "number \<Rightarrow> number \<Rightarrow> number" where
  "js_rem (Fin x) (Fin y) = (if y = 0 then NaN else Fin (x - y * of_int (trunc (x / y))))"
| "js_rem NaN _ = NaN"
| "js_rem _ NaN = NaN"
| "js_rem (Fin x) _ = Fin x"
| "js_rem _ _ = NaN"

fun js_pow :: "number \<Rightarrow> nat \<Rightarrow> number" where
  "js_pow (Fin x) n = Fin (x ^ n)"
| "js_pow _ 0 = Fin 1"
| "js_pow NaN _ = NaN"
| "js_pow PosInfinity _ = PosInfinity"
| "js_pow NegInfinity n = (if even n then PosInfinity else NegInfinity)"

fun js_lt :: "number \<Rightarrow> number \<Rightarrow> bool" where
  "js_lt (Fin x) (Fin y) = (x < y)"
| "js_lt NaN _ = False"
| "js_lt _ NaN = False"
| "js_lt PosInfinity _ = False"
| "js_lt _ NegInfinity = False"
| "js_lt _ _ = True"

fun js_le :: "number \<Rightarrow> number \<Rightarrow> bool" where
  "js_le (Fin x) (Fin y) = (x \<le> y)"
| "js_le NaN _ = False"
| "js_le _ NaN = False"
| "js_le _ PosInfinity = True"
| "js_le NegInfinity _ = True"
| "js_le _ _ = False"

text \<open>Equality of numbers, \<^verbatim>\<open>==\<close>: \<^verbatim>\<open>NaN\<close> equals nothing, not even itself.\<close>

definition js_eq :: "number \<Rightarrow> number \<Rightarrow> bool" where
  "js_eq a b = (a \<noteq> NaN \<and> b \<noteq> NaN \<and> a = b)"

definition Math_max :: "number \<Rightarrow> number \<Rightarrow> number" where
  "Math_max a b = (if a = NaN \<or> b = NaN then NaN else if js_lt a b then b else a)"

definition Math_min :: "number \<Rightarrow> number \<Rightarrow> number" where
  "Math_min a b = (if a = NaN \<or> b = NaN then NaN else if js_lt b a then b else a)"

text \<open>\<^verbatim>\<open>a || b\<close> on numbers: \<^verbatim>\<open>NaN\<close> and zero are falsy.\<close>

definition js_or :: "number \<Rightarrow> number \<Rightarrow> number" where
  "js_or a b = (if a = NaN \<or> a = Fin 0 then b else a)"

fun Math_sin :: "number \<Rightarrow> number" where
  "Math_sin (Fin x) = Fin (sin x)"
| "Math_sin _ = NaN"

fun Math_cos :: "number \<Rightarrow> number" where
  "Math_cos (Fin x) = Fin (cos x)"
| "Math_cos _ = NaN"

fun Math_sqrt :: "number \<Rightarrow> number" where
  "Math_sqrt (Fin x) = (if x < 0 then NaN else Fin (sqrt x))"
| "Math_sqrt PosInfinity = PosInfinity"
| "Math_sqrt _ = NaN"

fun Math_atan2 :: "number \<Rightarrow> number \<Rightarrow> number" where
  "Math_atan2 (Fin y) (Fin x) =
     Fin (if 0 < x then arctan (y / x)
          else if x < 0 then (if 0 \<le> y then arctan (y / x) + pi else arctan (y / x) - pi)
          else if 0 < y then pi / 2
          else if y < 0 then - (pi / 2)
          else 0)"
| "Math_atan2 NaN _ = NaN"
| "Math_atan2 _ NaN = NaN"
| "Math_atan2 (Fin y) PosInfinity = Fin 0"
| "Math_atan2 (Fin y) NegInfinity = Fin (if 0 \<le> y then pi else - pi)"
| "Math_atan2 PosInfinity (Fin x) = Fin (pi / 2)"
| "Math_atan2 NegInfinity (Fin x) = Fin (- (pi / 2))"
| "Math_atan2 PosInfinity PosInfinity = Fin (pi / 4)"
| "Math_atan2 PosInfinity NegInfinity = Fin (3 * pi / 4)"
| "Math_atan2 NegInfinity PosInfinity = Fin (- (pi / 4))"
| "Math_atan2 NegInfinity NegInfinity = Fin (- (3 * pi / 4))"

text \<open>
  \<^verbatim>\<open>Math.round\<close> and \<^verbatim>\<open>Math.floor\<close> return an integer wherever their argument is
  finite; the result type records that. \<^verbatim>\<open>Math.round\<close> rounds halves upwards.
\<close>

datatype whole = Whole int | NotANumber | PlusInfinity | MinusInfinity

fun Math_round :: "number \<Rightarrow> whole" where
  "Math_round (Fin x) = Whole \<lfloor>x + 1 / 2\<rfloor>"
| "Math_round NaN = NotANumber"
| "Math_round PosInfinity = PlusInfinity"
| "Math_round NegInfinity = MinusInfinity"

fun Math_floor :: "number \<Rightarrow> whole" where
  "Math_floor (Fin x) = Whole \<lfloor>x\<rfloor>"
| "Math_floor NaN = NotANumber"
| "Math_floor PosInfinity = PlusInfinity"
| "Math_floor NegInfinity = MinusInfinity"

text \<open>
  The conversion of a template literal, \<^verbatim>\<open>`${n}`\<close>, for the results of
  \<^verbatim>\<open>Math.round\<close> and \<^verbatim>\<open>Math.floor\<close>: all decimal digits. The language
  prints an integer so up to magnitude \<open>2\<^sup>5\<^sup>3\<close>; a larger one is printed with the
  shortest digits that identify the double, followed by zeros, and from \<open>10\<^sup>2\<^sup>1\<close> on
  with an exponent, which the model does not follow.
\<close>

definition digit_char :: "nat \<Rightarrow> char" where
  "digit_char d = ''0123456789'' ! d"

function digits :: "nat \<Rightarrow> string" where
  "digits n = (if n < 10 then [digit_char n] else digits (n div 10) @ [digit_char (n mod 10)])"
  by pat_completeness auto
termination
  by (relation "measure id") auto

declare digits.simps [simp del]

fun ToString :: "whole \<Rightarrow> string" where
  "ToString (Whole n) = (if n < 0 then ''-'' @ digits (nat (- n)) else digits (nat n))"
| "ToString NotANumber = ''NaN''"
| "ToString PlusInfinity = ''Infinity''"
| "ToString MinusInfinity = ''-Infinity''"

text \<open>
  \<^verbatim>\<open>Array.prototype.slice(start, end)\<close>: a negative bound counts from the end, and
  both bounds are clamped to the array.
\<close>

definition slice :: "'a list \<Rightarrow> int \<Rightarrow> int \<Rightarrow> 'a list" where
  "slice xs start end' =
     (let n = int (length xs);
          k = (if start < 0 then max (n + start) 0 else min start n);
          e = (if end' < 0 then max (n + end') 0 else min end' n)
      in take (nat (e - k)) (drop (nat k) xs))"

subsection \<open>Geo and ETA helpers\<close>

definition toRad :: "number \<Rightarrow> number" where
  "toRad deg = js_div (js_mul deg (Fin pi)) (Fin 180)"

fun haversineMeters :: "coordinate \<Rightarrow> coordinate \<Rightarrow> number" where
  "haversineMeters (lat1, lon1) (lat2, lon2) =
     (let R = Fin 6371000;
          dLat = toRad (js_sub (Fin lat2) (Fin lat1));
          dLon = toRad (js_sub (Fin lon2) (Fin lon1));
          a = js_add (js_pow (Math_sin (js_div dLat (Fin 2))) 2)
                (js_mul (js_mul (Math_cos (toRad (Fin lat1))) (Math_cos (toRad (Fin lat2))))
                   (js_pow (Math_sin (js_div dLon (Fin 2))) 2));
          c = js_mul (Fin 2) (Math_atan2 (Math_sqrt a) (Math_sqrt (js_sub (Fin 1) a)))
      in js_mul R c)"

declare haversineMeters.simps [simp del]

text \<open>
  \<^verbatim>\<open>pathDistanceMeters\<close>: the loop \<^verbatim>\<open>for (let i = 1; i < path.length; i++)\<close> with its
  accumulator \<open>d\<close>; \<open>path_loop path i d\<close> is the loop entered at \<open>i \<ge> 1\<close>.
\<close>

function path_loop :: "coordinate list \<Rightarrow> nat \<Rightarrow> number \<Rightarrow> number" where
  "path_loop pts i d =
     (if i < length pts
      then path_loop pts (i + 1) (js_add d (haversineMeters (pts ! (i - 1)) (pts ! i)))
      else d)"
  by pat_completeness auto
termination
  by (relation "measure (\<lambda>(pts, i, d). length pts - i)") auto

declare path_loop.simps [simp del]

definition pathDistanceMeters :: "coordinate list \<Rightarrow> number" where
  "pathDistanceMeters pts = path_loop pts 1 (Fin 0)"

text \<open>
  The string literal that \<^verbatim>\<open>formatETA\<close> returns for a value it cannot format. In
  the source file it is the three characters U+00E2, U+20AC, U+201D: the UTF-8 bytes of
  an em dash, once read as Windows-1252 and encoded again. \<open>em_dash\<close> is the character
  U+2014 itself, which the specification names.
\<close>

definition placeholder :: string where
  "placeholder = [CHR 0xC3, CHR 0xA2, CHR 0xE2, CHR 0x82, CHR 0xAC, CHR 0xE2, CHR 0x80, CHR 0x9D]"

definition em_dash :: string where
  "em_dash = [CHR 0xE2, CHR 0x80, CHR 0x94]"

definition formatETA :: "number \<Rightarrow> string" where
  "formatETA minutes =
     (if \<not> isFinite minutes \<or> js_lt minutes (Fin 0) then placeholder
      else if js_lt minutes (Fin 60) then ToString (Math_round minutes) @ '' min''
      else (let h = Math_floor (js_div minutes (Fin 60));
                m = Math_round (js_rem minutes (Fin 60))
            in ToString h @ ''h '' @ ToString m @ ''m''))"

subsection \<open>The state of the App component\<close>

text \<open>
  The state variables of \<^verbatim>\<open>App\<close> that the tracking logic reads and writes. The
  field \<open>input\<close> is the state variable \<^verbatim>\<open>trackingId\<close> (the text of the input box);
  \<open>idx\<close> is a JavaScript number that only ever holds integers.
\<close>

record app_state =
  input :: string
  loading :: bool
  error :: string
  info :: "tracking_info option"
  idx :: int
  follow :: bool

definition initial_state :: app_state where
  "initial_state = \<lparr> input = '''', loading = False, error = '''', info = None,
     idx = 0, follow = True \<rparr>"

text \<open>
  \<^verbatim>\<open>handleSearch\<close>: the synchronous part clears the error, the route and the index,
  then \<^verbatim>\<open>fetchTracking(trackingId.trim())\<close> is awaited; \<^verbatim>\<open>then\<close> stores the data,
  \<^verbatim>\<open>catch\<close> stores the message (or \<^verbatim>\<open>"Failed to fetch"\<close> when it is empty), and
  \<^verbatim>\<open>finally\<close> clears the loading flag. The model is the state once the promise has
  settled, with no other event in between.
\<close>

definition handleSearch :: "string \<Rightarrow> app_state \<Rightarrow> app_state" where
  "handleSearch now s =
     (let s1 = s\<lparr> error := '''', loading := True, info := None, idx := 0 \<rparr>;
          s2 = (case fetchTracking now (trim (input s1)) of
                  Inr data \<Rightarrow> s1\<lparr> info := Some data \<rparr>
                | Inl (Error msg) \<Rightarrow>
                    s1\<lparr> error := (if msg = '''' then ''Failed to fetch'' else msg) \<rparr>)
      in s2\<lparr> loading := False \<rparr>)"

definition resetAll :: "app_state \<Rightarrow> app_state" where
  "resetAll s = s\<lparr> input := '''', info := None, idx := 0, error := '''', follow := True \<rparr>"

text \<open>
  The interval callback. The effect installs the 15 s interval only while \<^verbatim>\<open>info\<close> is
  set and clears it when \<^verbatim>\<open>info\<close> changes, so a tick without a route does not occur;
  the model leaves the state alone there. With a route the callback is
  \<^verbatim>\<open>setIdx(prev => Math.min(prev + 1, info.path.length - 1))\<close>.
\<close>

definition tick :: "app_state \<Rightarrow> app_state" where
  "tick s =
     (case info s of
        None \<Rightarrow> s
      | Some r \<Rightarrow> s\<lparr> idx := min (idx s + 1) (int (length (path r)) - 1) \<rparr>)"

text \<open>
  The derived values. \<^verbatim>\<open>distances\<close> and \<^verbatim>\<open>etaMinutes\<close> are \<^verbatim>\<open>null\<close> without a
  route; \<^verbatim>\<open>progressPct\<close> is \<open>0\<close> then.
\<close>

record distance_snapshot =
  total :: number
  covered :: number
  remaining :: number


definition distances :: "app_state \<Rightarrow> distance_snapshot option" where
  "distances s =
     (case info s of
        None \<Rightarrow> None
      | Some r \<Rightarrow>
          (let total = pathDistanceMeters (path r);
               covered = pathDistanceMeters (slice (path r) 0 (idx s + 1));
               remaining = Math_max (Fin 0) (js_sub total covered)
           in Some \<lparr> total = total, covered = covered, remaining = remaining \<rparr>))"


definition progressPct :: "app_state \<Rightarrow> number" where
  "progressPct s =
     (case distances s of
        None \<Rightarrow> Fin 0
      | Some d \<Rightarrow>
          js_or (Math_min (Fin 100)
                   (Math_max (Fin 0) (js_mul (js_div (covered d) (total d)) (Fin 100))))
                (Fin 0))"

subsection \<open>Real quantities behind the distance\<close>

text \<open>
  Two abbreviations for the proofs: the value of the local \<^verbatim>\<open>a\<close> of
  \<^verbatim>\<open>haversineMeters\<close> and the number of metres it returns, as reals. The lemma
  \<open>haversineMeters_hav_d\<close> below shows that the function computes exactly these.
\<close>

definition hav_a :: "coordinate \<Rightarrow> coordinate \<Rightarrow> real" where
  "hav_a p q =
     (sin ((fst q - fst p) * pi / 360))\<^sup>2
     + cos (fst p * pi / 180) * cos (fst q * pi / 180) * (sin ((snd q - snd p) * pi / 360))\<^sup>2"

definition hav_d :: "coordinate \<Rightarrow> coordinate \<Rightarrow> real" where
  "hav_d p q =
     6371000 * (2 * (if hav_a p q < 1
                     then arctan (sqrt (hav_a p q) / sqrt (1 - hav_a p q))
                     else pi / 2))"

section \<open>Properties\<close>

subsection \<open>The progress index\<close>

lemma tick_info [simp]: "info (tick s) = info s"
  by (simp add: tick_def split: option.split)

lemma tick_idx:
  "info s = Some r \<Longrightarrow> idx (tick s) = min (idx s + 1) (int (length (path r)) - 1)"
  by (simp add: tick_def)

lemma tick_iter_info [simp]: "info ((tick ^^ n) s) = info s"
  by (induction n) simp_all

lemma tick_iter_idx:
  assumes "info s = Some r" and "idx s \<le> int (length (path r)) - 1"
  shows "idx ((tick ^^ n) s) = min (idx s + int n) (int (length (path r)) - 1)"
proof (induction n)
  case 0
  from assms(2) show ?case by simp
next
  case (Suc n)
  have "info ((tick ^^ n) s) = Some r" using assms(1) by simp
  then have "idx ((tick ^^ Suc n) s) = min (idx ((tick ^^ n) s) + 1) (int (length (path r)) - 1)"
    by (simp add: tick_idx)
  with Suc show ?case by simp
qed

lemma tick_fixed:
  "info s = Some r \<Longrightarrow> idx s = int (length (path r)) - 1 \<Longrightarrow> tick s = s"
  by (simp add: tick_def)

text \<open>
  Claim C1. With a route whose path is not empty, every tick sets the index to
  \<open>min (idx + 1) (length path - 1)\<close>. Started at index \<open>0\<close>, the index after any number
  of ticks lies between \<open>0\<close> and \<open>length path - 1\<close>, never decreases, equals
  \<open>length path - 1\<close> after \<open>N \<ge> length path\<close> ticks, and a tick at the last index
  changes nothing.
\<close>

theorem tick_index_clamped:
  assumes "info s = Some r" and "path r \<noteq> []" and "idx s = 0"
  shows "(\<forall>t. info t = Some r \<longrightarrow> idx (tick t) = min (idx t + 1) (int (length (path r)) - 1))
       \<and> (\<forall>n. 0 \<le> idx ((tick ^^ n) s) \<and> idx ((tick ^^ n) s) \<le> int (length (path r)) - 1)
       \<and> (\<forall>n m. n \<le> m \<longrightarrow> idx ((tick ^^ n) s) \<le> idx ((tick ^^ m) s))
       \<and> (\<forall>N. length (path r) \<le> N \<longrightarrow> idx ((tick ^^ N) s) = int (length (path r)) - 1)
       \<and> (\<forall>n. idx ((tick ^^ n) s) = int (length (path r)) - 1
              \<longrightarrow> (tick ^^ Suc n) s = (tick ^^ n) s)"
proof -
  have len: "0 \<le> int (length (path r)) - 1"
    using assms(2) by (cases "path r") simp_all
  have it: "idx ((tick ^^ n) s) = min (int n) (int (length (path r)) - 1)" for n
    using tick_iter_idx [of s r n] assms(1,3) len by simp
  have fx: "(tick ^^ Suc n) s = (tick ^^ n) s"
    if "idx ((tick ^^ n) s) = int (length (path r)) - 1" for n
    using tick_fixed [of "(tick ^^ n) s" r] that assms(1) by simp
  have a: "\<forall>t. info t = Some r \<longrightarrow> idx (tick t) = min (idx t + 1) (int (length (path r)) - 1)"
    by (simp add: tick_idx)
  have b: "\<forall>n. 0 \<le> idx ((tick ^^ n) s) \<and> idx ((tick ^^ n) s) \<le> int (length (path r)) - 1"
    using len by (auto simp add: it)
  have c: "\<forall>n m. n \<le> m \<longrightarrow> idx ((tick ^^ n) s) \<le> idx ((tick ^^ m) s)"
    by (auto simp add: it)
  have d: "\<forall>N. length (path r) \<le> N \<longrightarrow> idx ((tick ^^ N) s) = int (length (path r)) - 1"
    by (auto simp add: it)
  have e: "\<forall>n. idx ((tick ^^ n) s) = int (length (path r)) - 1
             \<longrightarrow> (tick ^^ Suc n) s = (tick ^^ n) s"
    using fx by blast
  from a b c d e show ?thesis by blast
qed

subsection \<open>The resolver\<close>

lemma white_space_nonempty: "[] \<notin> set white_space" "[] \<notin> set (map rev white_space)"
  by (simp_all add: white_space_def)

lemma white_space_prefix_free:
  "\<forall>w\<in>set white_space. \<forall>w'\<in>set white_space. prefix w w' \<longrightarrow> w = w'"
  unfolding white_space_def by simp

lemma white_space_rev_prefix_free:
  "\<forall>w\<in>set (map rev white_space). \<forall>w'\<in>set (map rev white_space). prefix w w' \<longrightarrow> w = w'"
  unfolding white_space_def by simp

text \<open>No later byte of an encoding is the first byte of an encoding.\<close>

lemma white_space_sync:
  "\<forall>w\<in>set white_space. \<forall>b\<in>set (tl w). \<forall>w'\<in>set white_space. b \<noteq> hd w'"
  unfolding white_space_def by simp

lemma find_unique:
  assumes "x \<in> set xs" and "P x" and "\<forall>y\<in>set xs. P y \<longrightarrow> y = x"
  shows "find P xs = Some x"
  using assms(1,3)
proof (induction xs)
  case Nil
  then show ?case by simp
next
  case (Cons a xs)
  show ?case
  proof (cases "P a")
    case True
    with Cons.prems(2) have "a = x" by simp
    with True show ?thesis by simp
  next
    case False
    with assms(2) have "a \<noteq> x" by blast
    with Cons.prems have "x \<in> set xs" "\<forall>y\<in>set xs. P y \<longrightarrow> y = x" by simp_all
    then have "find P xs = Some x" by (rule Cons.IH)
    with False show ?thesis by simp
  qed
qed

lemma strip_left_entry:
  assumes free: "\<forall>w\<in>set tbl. \<forall>w'\<in>set tbl. prefix w w' \<longrightarrow> w = w'"
    and w: "w \<in> set tbl" "w \<noteq> []"
  shows "strip_left tbl (w @ r) = Some r"
proof -
  have "find (\<lambda>v. v \<noteq> [] \<and> prefix v (w @ r)) tbl = Some w"
  proof (rule find_unique)
    show "w \<in> set tbl" by (rule w(1))
    show "w \<noteq> [] \<and> prefix w (w @ r)" using w(2) by simp
    show "\<forall>y\<in>set tbl. y \<noteq> [] \<and> prefix y (w @ r) \<longrightarrow> y = w"
    proof (intro ballI impI)
      fix y assume y: "y \<in> set tbl" "y \<noteq> [] \<and> prefix y (w @ r)"
      then have "prefix y w \<or> prefix w y"
        using prefix_same_cases [of y "w @ r" w] by auto
      with free w(1) y(1) show "y = w" by blast
    qed
  qed
  then show ?thesis by (simp add: strip_left_def)
qed

lemma strip_left_Nil [simp]: "strip_left tbl [] = None"
  by (simp add: strip_left_def find_None_iff)

lemma trim_left_Nil [simp]: "trim_left tbl [] = []"
  by (subst trim_left.simps) simp

lemma trim_left_blank_prefix:
  assumes free: "\<forall>w\<in>set tbl. \<forall>w'\<in>set tbl. prefix w w' \<longrightarrow> w = w'"
    and ws: "set ws \<subseteq> set tbl"
  shows "trim_left tbl (concat ws @ r) = trim_left tbl r"
  using ws
proof (induction ws)
  case Nil
  show ?case by simp
next
  case (Cons w ws)
  show ?case
  proof (cases "w = []")
    case True
    with Cons show ?thesis by simp
  next
    case False
    with Cons.prems have "strip_left tbl (w @ (concat ws @ r)) = Some (concat ws @ r)"
      by (intro strip_left_entry [OF free]) simp_all
    then have "trim_left tbl (concat (w # ws) @ r) = trim_left tbl (concat ws @ r)"
      by (subst trim_left.simps) simp
    with Cons show ?thesis by simp
  qed
qed

lemma find_SomeD: "find P xs = Some x \<Longrightarrow> x \<in> set xs \<and> P x"
  by (induction xs) (simp_all split: if_splits)

lemma strip_left_SomeD:
  assumes "strip_left tbl s = Some r"
  shows "\<exists>w\<in>set tbl. w \<noteq> [] \<and> s = w @ r"
proof -
  from assms obtain w where f: "find (\<lambda>w. w \<noteq> [] \<and> prefix w s) tbl = Some w"
      and r: "r = drop (length w) s"
    unfolding strip_left_def by (elim map_option_eq_Some[THEN iffD1, elim_format]) auto
  from find_SomeD [OF f] have w: "w \<in> set tbl" "w \<noteq> []" "prefix w s" by simp_all
  from w(3) obtain t where "s = w @ t" by (rule prefixE)
  with r have "s = w @ r" by simp
  with w show ?thesis by blast
qed

lemma trim_left_None: "strip_left tbl s = None \<Longrightarrow> trim_left tbl s = s"
  by (subst trim_left.simps) simp

lemma trim_left_Some: "strip_left tbl s = Some r \<Longrightarrow> trim_left tbl s = trim_left tbl r"
  by (subst trim_left.simps) simp

lemma trim_left_empty_blank:
  "trim_left tbl s = [] \<Longrightarrow> \<exists>ws. set ws \<subseteq> set tbl \<and> s = concat ws"
proof (induction tbl s rule: trim_left.induct)
  case (1 tbl s)
  show ?case
  proof (cases "strip_left tbl s")
    case None
    with "1.prems" have "s = []" by (simp add: trim_left_None)
    then have "set [] \<subseteq> set tbl \<and> s = concat []" by simp
    then show ?thesis by blast
  next
    case (Some r)
    with "1.prems" have "trim_left tbl r = []" by (simp add: trim_left_Some)
    with "1.IH" [OF Some] obtain ws where ws: "set ws \<subseteq> set tbl" "r = concat ws" by blast
    from Some obtain w where w: "w \<in> set tbl" "s = w @ r"
      using strip_left_SomeD by blast
    with ws have "set (w # ws) \<subseteq> set tbl \<and> s = concat (w # ws)" by simp
    then show ?thesis by blast
  qed
qed

lemma trim_left_append:
  assumes "\<forall>w\<in>set tbl. \<forall>w'\<in>set tbl. prefix w w' \<longrightarrow> w = w'"
    and "\<forall>w\<in>set tbl. \<forall>b\<in>set (tl w). b \<noteq> hd y"
    and "y \<noteq> []"
    and "trim_left tbl x \<noteq> []"
  shows "trim_left tbl (x @ y) = trim_left tbl x @ y"
  using assms
proof (induction tbl x rule: trim_left.induct)
  case (1 tbl x)
  note free = "1.prems"(1) and sync = "1.prems"(2) and y = "1.prems"(3) and ne = "1.prems"(4)
  show ?case
  proof (cases "strip_left tbl x")
    case (Some r)
    then obtain w where w: "w \<in> set tbl" "w \<noteq> []" "x = w @ r"
      using strip_left_SomeD by blast
    have "strip_left tbl (w @ (r @ y)) = Some (r @ y)"
      by (rule strip_left_entry [OF free w(1,2)])
    then have a: "trim_left tbl (x @ y) = trim_left tbl (r @ y)"
      by (simp add: w(3) trim_left_Some)
    have b: "trim_left tbl x = trim_left tbl r"
      using Some by (rule trim_left_Some)
    with ne have "trim_left tbl r \<noteq> []" by simp
    then have "trim_left tbl (r @ y) = trim_left tbl r @ y"
      by (rule "1.IH" [OF Some free sync y])
    with a b show ?thesis by simp
  next
    case None
    then have x: "trim_left tbl x = x" by (rule trim_left_None)
    with ne have xne: "x \<noteq> []" by simp
    have "strip_left tbl (x @ y) = None"
    proof (rule ccontr)
      assume "strip_left tbl (x @ y) \<noteq> None"
      then obtain r where "strip_left tbl (x @ y) = Some r" by blast
      then obtain w where w: "w \<in> set tbl" "w \<noteq> []" "x @ y = w @ r"
        using strip_left_SomeD by blast
      from None have "find (\<lambda>w. w \<noteq> [] \<and> prefix w x) tbl = None"
        by (simp add: strip_left_def)
      then have np: "\<not> prefix w x"
        using w(1,2) unfolding find_None_iff by blast
      from w(3) have "prefix w (x @ y)" by (simp add: prefix_def)
      with np obtain us where us: "w = x @ us" "prefix us y"
        unfolding prefix_append by blast
      with np have "us \<noteq> []" by auto
      with us(2) y have h: "hd us = hd y"
        by (cases us; cases y) auto
      from xne \<open>us \<noteq> []\<close> us(1) have "hd us \<in> set (tl w)"
        by (cases x; cases us) auto
      with sync w(1) h show False by auto
    qed
    then have "trim_left tbl (x @ y) = x @ y" by (rule trim_left_None)
    with x show ?thesis by simp
  qed
qed

lemma blank_hd:
  assumes "blank y" and "y \<noteq> []"
  shows "\<exists>w\<in>set white_space. hd y = hd w"
proof -
  from assms(1) obtain ws where ws: "set ws \<subseteq> set white_space" "y = concat ws"
    unfolding blank_def by blast
  from ws assms(2) show ?thesis
  proof (induction ws arbitrary: y)
    case Nil
    then show ?case by simp
  next
    case (Cons w ws)
    show ?case
    proof (cases "w = []")
      case True
      with Cons.prems have "set ws \<subseteq> set white_space" "y = concat ws" by simp_all
      then show ?thesis using Cons.prems(3) by (rule Cons.IH)
    next
      case False
      with Cons.prems(2) have "hd y = hd w" by simp
      with Cons.prems(1) show ?thesis by auto
    qed
  qed
qed

lemma trimStart_blank_prefix: "blank w \<Longrightarrow> trimStart (w @ r) = trimStart r"
  unfolding blank_def trimStart_def
  using trim_left_blank_prefix [OF white_space_prefix_free] by blast

lemma trimEnd_blank_suffix:
  assumes "blank w"
  shows "trimEnd (r @ w) = trimEnd r"
proof -
  from assms obtain ws where ws: "set ws \<subseteq> set white_space" "w = concat ws"
    unfolding blank_def by blast
  have "set (map rev (rev ws)) \<subseteq> set (map rev white_space)"
    using ws(1) by auto
  then have "trim_left (map rev white_space) (concat (map rev (rev ws)) @ rev r)
      = trim_left (map rev white_space) (rev r)"
    by (rule trim_left_blank_prefix [OF white_space_rev_prefix_free])
  then show ?thesis
    by (simp add: trimEnd_def ws(2) rev_concat)
qed

lemma trimStart_empty_blank: "trimStart a = [] \<Longrightarrow> blank a"
  unfolding trimStart_def blank_def by (rule trim_left_empty_blank)

lemma blank_trimStart: "blank a \<Longrightarrow> trimStart a = []"
  using trimStart_blank_prefix [of a "[]"] by (simp add: trimStart_def)

lemma blank_append: "blank a \<Longrightarrow> blank b \<Longrightarrow> blank (a @ b)"
proof -
  assume "blank a" "blank b"
  then obtain ws vs where "set ws \<subseteq> set white_space" "a = concat ws"
      "set vs \<subseteq> set white_space" "b = concat vs"
    unfolding blank_def by blast
  then have "set (ws @ vs) \<subseteq> set white_space \<and> a @ b = concat (ws @ vs)" by simp
  then show ?thesis unfolding blank_def by blast
qed

lemma trimStart_append_blank:
  assumes "blank w"
  shows "trimStart (a @ w) = (if trimStart a = [] then [] else trimStart a @ w)"
proof (cases "trimStart a = []")
  case True
  then have "blank a" by (rule trimStart_empty_blank)
  then have "blank (a @ w)" using assms by (rule blank_append)
  then have "trimStart (a @ w) = []" by (rule blank_trimStart)
  with True show ?thesis by simp
next
  case False
  show ?thesis
  proof (cases "w = []")
    case True
    with False show ?thesis by simp
  next
    case wne: False
    from blank_hd [OF assms wne] obtain v where v: "v \<in> set white_space" "hd w = hd v"
      by blast
    have sync: "\<forall>u\<in>set white_space. \<forall>b\<in>set (tl u). b \<noteq> hd w"
      using white_space_sync v by auto
    have "trim_left white_space (a @ w) = trim_left white_space a @ w"
      using white_space_prefix_free sync wne False [unfolded trimStart_def]
      by (rule trim_left_append)
    with False show ?thesis by (simp add: trimStart_def)
  qed
qed

lemma trimEnd_Nil [simp]: "trimEnd [] = []"
  by (simp add: trimEnd_def)

lemma trim_padding:
  assumes "blank w1" and "blank w2"
  shows "trim (w1 @ a @ w2) = trim a"
proof -
  have "trimStart (w1 @ a @ w2) = trimStart (a @ w2)"
    using assms(1) by (rule trimStart_blank_prefix)
  also have "\<dots> = (if trimStart a = [] then [] else trimStart a @ w2)"
    using assms(2) by (rule trimStart_append_blank)
  finally show ?thesis
    using trimEnd_blank_suffix [OF assms(2), of "trimStart a"] by (simp add: trim_def)
qed

lemma upper_char_cases:
  "upper_char c = c \<or>
   upper_char c \<in> set ''ABCDEFGHIJKLMNOPQRSTUVWXYZ'' \<and> c \<in> set ''abcdefghijklmnopqrstuvwxyz''"
  unfolding upper_char_def by (simp split: option.split)

text \<open>The bytes of the white-space encodings are no letters, so upper-casing neither
  changes them nor produces them.\<close>

lemma white_space_bytes:
  "\<forall>w\<in>set white_space. \<forall>b\<in>set w.
     b \<notin> set ''ABCDEFGHIJKLMNOPQRSTUVWXYZ'' \<and> b \<notin> set ''abcdefghijklmnopqrstuvwxyz''"
  unfolding white_space_def by simp

lemma upper_char_rigid:
  assumes "b \<notin> set ''ABCDEFGHIJKLMNOPQRSTUVWXYZ''" and "b \<notin> set ''abcdefghijklmnopqrstuvwxyz''"
  shows "upper_char c = b \<longleftrightarrow> c = b"
  using upper_char_cases [of c] upper_char_cases [of b] assms by metis

lemma prefix_map_upper:
  assumes "\<forall>b\<in>set w. b \<notin> set ''ABCDEFGHIJKLMNOPQRSTUVWXYZ'' \<and> b \<notin> set ''abcdefghijklmnopqrstuvwxyz''"
  shows "prefix w (map upper_char s) \<longleftrightarrow> prefix w s"
  using assms
proof (induction w arbitrary: s)
  case Nil
  show ?case by simp
next
  case (Cons b w)
  show ?case
  proof (cases s)
    case Nil
    then show ?thesis by simp
  next
    case (Cons c t)
    have "upper_char c = b \<longleftrightarrow> c = b"
      using Cons.prems by (intro upper_char_rigid) simp_all
    moreover have "prefix w (map upper_char t) \<longleftrightarrow> prefix w t"
      using Cons.prems by (intro Cons.IH) simp
    ultimately show ?thesis using Cons by auto
  qed
qed

lemma strip_left_map_upper:
  assumes "\<forall>w\<in>set tbl. \<forall>b\<in>set w.
     b \<notin> set ''ABCDEFGHIJKLMNOPQRSTUVWXYZ'' \<and> b \<notin> set ''abcdefghijklmnopqrstuvwxyz''"
  shows "strip_left tbl (map upper_char s) = map_option (map upper_char) (strip_left tbl s)"
proof -
  have "find (\<lambda>w. w \<noteq> [] \<and> prefix w (map upper_char s)) tbl
      = find (\<lambda>w. w \<noteq> [] \<and> prefix w s) tbl"
    using assms by (intro find_cong refl) (simp add: prefix_map_upper)
  then show ?thesis
    by (simp add: strip_left_def option.map_comp comp_def drop_map)
qed

lemma trim_left_map_upper:
  assumes "\<forall>w\<in>set tbl. \<forall>b\<in>set w.
     b \<notin> set ''ABCDEFGHIJKLMNOPQRSTUVWXYZ'' \<and> b \<notin> set ''abcdefghijklmnopqrstuvwxyz''"
  shows "trim_left tbl (map upper_char s) = map upper_char (trim_left tbl s)"
  using assms
proof (induction tbl s rule: trim_left.induct)
  case (1 tbl s)
  note r = strip_left_map_upper [OF "1.prems", of s]
  show ?case
  proof (cases "strip_left tbl s")
    case None
    with r have "strip_left tbl (map upper_char s) = None" by simp
    with None show ?thesis by (simp add: trim_left_None)
  next
    case (Some t)
    with r have "strip_left tbl (map upper_char s) = Some (map upper_char t)" by simp
    then have "trim_left tbl (map upper_char s) = trim_left tbl (map upper_char t)"
      by (rule trim_left_Some)
    also have "\<dots> = map upper_char (trim_left tbl t)"
      using Some "1.prems" by (rule "1.IH")
    also have "\<dots> = map upper_char (trim_left tbl s)"
      using Some by (simp add: trim_left_Some)
    finally show ?thesis .
  qed
qed

lemma white_space_rev_bytes:
  "\<forall>w\<in>set (map rev white_space). \<forall>b\<in>set w.
     b \<notin> set ''ABCDEFGHIJKLMNOPQRSTUVWXYZ'' \<and> b \<notin> set ''abcdefghijklmnopqrstuvwxyz''"
  using white_space_bytes by auto

lemma trimEnd_map_upper: "trimEnd (map upper_char t) = map upper_char (trimEnd t)"
proof -
  have "trimEnd (map upper_char t)
      = rev (trim_left (map rev white_space) (map upper_char (rev t)))"
    by (simp add: trimEnd_def rev_map)
  also have "\<dots> = rev (map upper_char (trim_left (map rev white_space) (rev t)))"
    by (simp only: trim_left_map_upper [OF white_space_rev_bytes])
  also have "\<dots> = map upper_char (trimEnd t)"
    by (simp add: trimEnd_def rev_map)
  finally show ?thesis .
qed

lemma trim_toUpperCase: "trim (toUpperCase s) = toUpperCase (trim s)"
  by (simp add: trim_def trimStart_def toUpperCase_def
      trim_left_map_upper [OF white_space_bytes] trimEnd_map_upper)

lemma trim_literals:
  "trim ''blr555'' = ''blr555''"
  "trim '' QQQ111 '' = ''QQQ111''"
  "trim ''chn123'' = ''chn123''"
  "trim ''CHN123'' = ''CHN123''"
  by (simp_all add: trim_def trimStart_def trimEnd_def trim_left.simps strip_left_def
      white_space_def)

lemma fetchTracking_key:
  "toUpperCase t = toUpperCase u \<Longrightarrow> fetchTracking now t = fetchTracking now u"
  by (simp add: fetchTracking_def)

lemma handleSearch_info:
  "info (handleSearch now s) =
     (case fetchTracking now (trim (input s)) of Inr d \<Rightarrow> Some d | Inl e \<Rightarrow> None)"
  by (simp add: handleSearch_def Let_def split: sum.split js_error.split)

lemma handleSearch_error:
  "error (handleSearch now s) =
     (case fetchTracking now (trim (input s)) of
        Inr d \<Rightarrow> []
      | Inl (Error msg) \<Rightarrow> (if msg = [] then ''Failed to fetch'' else msg))"
  by (simp add: handleSearch_def Let_def split: sum.split js_error.split)

lemma handleSearch_idx [simp]: "idx (handleSearch now s) = 0"
  by (simp add: handleSearch_def Let_def split: sum.split js_error.split)

lemma toUpperCase_literals:
  "toUpperCase ''chn123'' = ''CHN123''"
  "toUpperCase ''CHN123'' = ''CHN123''"
  "toUpperCase ''ChN123'' = ''CHN123''"
  "toUpperCase ''ZZZ000'' = ''ZZZ000''"
  "toUpperCase ''QQQ111'' = ''QQQ111''"
  by (simp_all add: toUpperCase_def upper_char_def)

lemma fetchTracking_CHN123:
  "fetchTracking now ''chn123'' = Inr (route.extend CHN123 \<lparr> lastUpdated = now \<rparr>)"
  "fetchTracking now ''CHN123'' = Inr (route.extend CHN123 \<lparr> lastUpdated = now \<rparr>)"
  by (simp_all add: fetchTracking_def toUpperCase_literals ROUTES_def)

lemma fetchTracking_unknown:
  "fetchTracking now ''ZZZ000'' = Inl (Error ''Tracking ID not found'')"
  "fetchTracking now ''QQQ111'' = Inl (Error ''Tracking ID not found'')"
  by (simp_all add: fetchTracking_def toUpperCase_literals ROUTES_def)

text \<open>
  Claim C4, as the code has it. An id whose upper-cased form is not a key of the registry
  is rejected with an \<^verbatim>\<open>Error\<close> whose message is the fixed text
  \<^verbatim>\<open>Tracking ID not found\<close>; \<^verbatim>\<open>handleSearch\<close> then stores that message and leaves the
  route unset. The id \<^verbatim>\<open>ZZZ000\<close> is such an id.
\<close>

theorem unknown_id_rejected:
  assumes "ROUTES (toUpperCase tid) = None"
  shows "fetchTracking now tid = Inl (Error ''Tracking ID not found'')
       \<and> (trim (input s) = tid \<longrightarrow>
            info (handleSearch now s) = None
          \<and> error (handleSearch now s) = ''Tracking ID not found'')
       \<and> fetchTracking now ''ZZZ000'' = Inl (Error ''Tracking ID not found'')"
proof -
  have f: "fetchTracking now tid = Inl (Error ''Tracking ID not found'')"
    using assms by (simp add: fetchTracking_def)
  then show ?thesis
    by (simp add: handleSearch_info handleSearch_error fetchTracking_unknown)
qed

theorem unknown_id_rejected_witness:
  "ROUTES (toUpperCase ''QQQ111'') = None
   \<and> fetchTracking ''2025-01-01T00:00:00.000Z'' ''QQQ111'' = Inl (Error ''Tracking ID not found'')
   \<and> trim '' QQQ111 '' = ''QQQ111''
   \<and> info (handleSearch ''2025-01-01T00:00:00.000Z'' (initial_state\<lparr> input := '' QQQ111 '' \<rparr>)) = None
   \<and> error (handleSearch ''2025-01-01T00:00:00.000Z'' (initial_state\<lparr> input := '' QQQ111 '' \<rparr>))
       = ''Tracking ID not found''"
proof -
  have h: "ROUTES (toUpperCase ''QQQ111'') = None"
    by (simp add: toUpperCase_literals ROUTES_def)
  have t: "trim '' QQQ111 '' = ''QQQ111''"
    by (rule trim_literals)
  from unknown_id_rejected [OF h, of "''2025-01-01T00:00:00.000Z''"
      "initial_state\<lparr> input := '' QQQ111 '' \<rparr>"] h t
  show ?thesis by simp
qed

text \<open>
  The claim as the specification words it asks for a message that identifies the missing
  id. The message for \<^verbatim>\<open>ZZZ000\<close> does not contain the id, and another unknown id gets
  the very same rejection.
\<close>

theorem unknown_id_message_counterexample:
  "fetchTracking ''2025-01-01T00:00:00.000Z'' ''ZZZ000'' = Inl (Error ''Tracking ID not found'')
   \<and> \<not> sublist ''ZZZ000'' ''Tracking ID not found''
   \<and> fetchTracking ''2025-01-01T00:00:00.000Z'' ''QQQ111''
       = fetchTracking ''2025-01-01T00:00:00.000Z'' ''ZZZ000''"
  by (simp add: fetchTracking_unknown sublist_Cons_right)

lemma handleSearch_resolves:
  "info (handleSearch now s)
     = map_option (\<lambda>data. route.extend data \<lparr> lastUpdated = now \<rparr>)
         (ROUTES (toUpperCase (trim (input s))))"
  by (simp add: handleSearch_info fetchTracking_def split: option.split)

lemma handleSearch_message:
  "error (handleSearch now s)
     = (if ROUTES (toUpperCase (trim (input s))) = None then ''Tracking ID not found'' else [])"
  by (simp add: handleSearch_error fetchTracking_def split: option.split)

lemma ROUTES_CHN123: "ROUTES ''CHN123'' = Some CHN123"
  by (simp add: ROUTES_def)

lemma blank_Nil: "blank []"
  unfolding blank_def by (rule exI [of _ "[]"]) simp

lemma blank_samples:
  "blank [CHR 0xC2, CHR 0xA0]"
  "blank [CHR 0x09, CHR 0xE3, CHR 0x80, CHR 0x80]"
  "blank ''  ''"
proof -
  show "blank [CHR 0xC2, CHR 0xA0]"
    unfolding blank_def
    by (rule exI [of _ "[[CHR 0xC2, CHR 0xA0]]"]) (simp add: white_space_def)
  show "blank [CHR 0x09, CHR 0xE3, CHR 0x80, CHR 0x80]"
    unfolding blank_def
    by (rule exI [of _ "[[CHR 0x09], [CHR 0xE3, CHR 0x80, CHR 0x80]]"]) (simp add: white_space_def)
  show "blank ''  ''"
    unfolding blank_def
    by (rule exI [of _ "['' '', '' '']"]) (simp add: white_space_def)
qed

text \<open>
  Claim C8. \<^verbatim>\<open>handleSearch\<close> trims the input and \<^verbatim>\<open>fetchTracking\<close> upper-cases it
  before the lookup. So a search whose input is an id \<open>a\<close> with white space around it
  ends with the registry entry under the trimmed, upper-cased \<open>a\<close> as its route, stamped
  with the time, or with the error message when there is none; an input that differs
  only in the surrounding white space and in letter case ends alike. With any white
  space around them, \<^verbatim>\<open>chn123\<close> and \<^verbatim>\<open>CHN123\<close> both resolve to the entry
  \<^verbatim>\<open>CHN123\<close>, as they do when passed to \<^verbatim>\<open>fetchTracking\<close> directly.
\<close>

theorem resolve_normalizes_id:
  assumes "blank w1" and "blank w2" and "blank w3" and "blank w4"
    and "toUpperCase a = toUpperCase b"
  shows "info (handleSearch now (s\<lparr> input := w1 @ a @ w2 \<rparr>))
           = map_option (\<lambda>data. route.extend data \<lparr> lastUpdated = now \<rparr>)
               (ROUTES (toUpperCase (trim a)))
       \<and> error (handleSearch now (s\<lparr> input := w1 @ a @ w2 \<rparr>))
           = (if ROUTES (toUpperCase (trim a)) = None then ''Tracking ID not found'' else [])
       \<and> info (handleSearch now (s\<lparr> input := w3 @ b @ w4 \<rparr>))
           = info (handleSearch now (s\<lparr> input := w1 @ a @ w2 \<rparr>))
       \<and> error (handleSearch now (s\<lparr> input := w3 @ b @ w4 \<rparr>))
           = error (handleSearch now (s\<lparr> input := w1 @ a @ w2 \<rparr>))
       \<and> info (handleSearch now (s\<lparr> input := w1 @ ''chn123'' @ w2 \<rparr>))
           = Some (route.extend CHN123 \<lparr> lastUpdated = now \<rparr>)
       \<and> info (handleSearch now (s\<lparr> input := w3 @ ''CHN123'' @ w4 \<rparr>))
           = Some (route.extend CHN123 \<lparr> lastUpdated = now \<rparr>)
       \<and> fetchTracking now ''chn123'' = Inr (route.extend CHN123 \<lparr> lastUpdated = now \<rparr>)
       \<and> fetchTracking now ''CHN123'' = Inr (route.extend CHN123 \<lparr> lastUpdated = now \<rparr>)"
proof -
  have ta: "trim (w1 @ a @ w2) = trim a"
    using assms(1,2) by (rule trim_padding)
  have tb: "trim (w3 @ b @ w4) = trim b"
    using assms(3,4) by (rule trim_padding)
  have "toUpperCase (trim b) = trim (toUpperCase b)"
    by (simp only: trim_toUpperCase)
  also have "\<dots> = toUpperCase (trim a)"
    by (simp only: assms(5) [symmetric] trim_toUpperCase)
  finally have ab: "toUpperCase (trim b) = toUpperCase (trim a)" .
  have c1: "trim (w1 @ ''chn123'' @ w2) = ''chn123''"
    using trim_padding [OF assms(1,2), of "''chn123''"] by (simp add: trim_literals)
  have c2: "trim (w3 @ ''CHN123'' @ w4) = ''CHN123''"
    using trim_padding [OF assms(3,4), of "''CHN123''"] by (simp add: trim_literals)
  have 1: "info (handleSearch now (s\<lparr> input := w1 @ a @ w2 \<rparr>))
      = map_option (\<lambda>data. route.extend data \<lparr> lastUpdated = now \<rparr>)
          (ROUTES (toUpperCase (trim a)))"
    by (simp add: handleSearch_resolves ta)
  have 2: "error (handleSearch now (s\<lparr> input := w1 @ a @ w2 \<rparr>))
      = (if ROUTES (toUpperCase (trim a)) = None then ''Tracking ID not found'' else [])"
    by (simp add: handleSearch_message ta)
  have 3: "info (handleSearch now (s\<lparr> input := w3 @ b @ w4 \<rparr>))
      = info (handleSearch now (s\<lparr> input := w1 @ a @ w2 \<rparr>))"
    by (simp add: handleSearch_resolves ta tb ab)
  have 4: "error (handleSearch now (s\<lparr> input := w3 @ b @ w4 \<rparr>))
      = error (handleSearch now (s\<lparr> input := w1 @ a @ w2 \<rparr>))"
    by (simp add: handleSearch_message ta tb ab)
  have 5: "info (handleSearch now (s\<lparr> input := w1 @ ''chn123'' @ w2 \<rparr>))
      = Some (route.extend CHN123 \<lparr> lastUpdated = now \<rparr>)"
    using c1 by (simp add: handleSearch_resolves toUpperCase_literals ROUTES_CHN123)
  have 6: "info (handleSearch now (s\<lparr> input := w3 @ ''CHN123'' @ w4 \<rparr>))
      = Some (route.extend CHN123 \<lparr> lastUpdated = now \<rparr>)"
    using c2 by (simp add: handleSearch_resolves toUpperCase_literals ROUTES_CHN123)
  from 1 2 3 4 5 6 fetchTracking_CHN123 [of now] show ?thesis by blast
qed

theorem resolve_normalizes_id_witness:
  "blank [CHR 0xC2, CHR 0xA0] \<and> blank [CHR 0x09, CHR 0xE3, CHR 0x80, CHR 0x80]
   \<and> blank [] \<and> blank ''  ''
   \<and> toUpperCase ''chn123'' = toUpperCase ''ChN123''
   \<and> info (handleSearch ''2025-01-01T00:00:00.000Z''
        (initial_state\<lparr> input := [CHR 0xC2, CHR 0xA0] @ ''chn123''
           @ [CHR 0x09, CHR 0xE3, CHR 0x80, CHR 0x80] \<rparr>))
       = Some (route.extend CHN123 \<lparr> lastUpdated = ''2025-01-01T00:00:00.000Z'' \<rparr>)
   \<and> info (handleSearch ''2025-01-01T00:00:00.000Z''
        (initial_state\<lparr> input := [] @ ''ChN123'' @ ''  '' \<rparr>))
       = Some (route.extend CHN123 \<lparr> lastUpdated = ''2025-01-01T00:00:00.000Z'' \<rparr>)
   \<and> error (handleSearch ''2025-01-01T00:00:00.000Z''
        (initial_state\<lparr> input := [] @ ''ChN123'' @ ''  '' \<rparr>)) = []"
proof -
  note b = blank_samples(1) blank_samples(2) blank_Nil blank_samples(3)
  have u: "toUpperCase ''chn123'' = toUpperCase ''ChN123''"
    by (simp add: toUpperCase_literals)
  note T = resolve_normalizes_id [OF b u, of "''2025-01-01T00:00:00.000Z''" initial_state]
  from T have 1: "info (handleSearch ''2025-01-01T00:00:00.000Z''
        (initial_state\<lparr> input := [CHR 0xC2, CHR 0xA0] @ ''chn123''
           @ [CHR 0x09, CHR 0xE3, CHR 0x80, CHR 0x80] \<rparr>))
       = Some (route.extend CHN123 \<lparr> lastUpdated = ''2025-01-01T00:00:00.000Z'' \<rparr>)"
    by blast
  from T have 2: "info (handleSearch ''2025-01-01T00:00:00.000Z''
        (initial_state\<lparr> input := [] @ ''ChN123'' @ ''  '' \<rparr>))
       = info (handleSearch ''2025-01-01T00:00:00.000Z''
        (initial_state\<lparr> input := [CHR 0xC2, CHR 0xA0] @ ''chn123''
           @ [CHR 0x09, CHR 0xE3, CHR 0x80, CHR 0x80] \<rparr>))"
    by blast
  from T have 3: "error (handleSearch ''2025-01-01T00:00:00.000Z''
        (initial_state\<lparr> input := [] @ ''ChN123'' @ ''  '' \<rparr>))
       = error (handleSearch ''2025-01-01T00:00:00.000Z''
        (initial_state\<lparr> input := [CHR 0xC2, CHR 0xA0] @ ''chn123''
           @ [CHR 0x09, CHR 0xE3, CHR 0x80, CHR 0x80] \<rparr>))"
    by blast
  from T have 4: "error (handleSearch ''2025-01-01T00:00:00.000Z''
        (initial_state\<lparr> input := [CHR 0xC2, CHR 0xA0] @ ''chn123''
           @ [CHR 0x09, CHR 0xE3, CHR 0x80, CHR 0x80] \<rparr>))
       = (if ROUTES (toUpperCase (trim ''chn123'')) = None then ''Tracking ID not found'' else [])"
    by blast
  have "ROUTES (toUpperCase (trim ''chn123'')) = Some CHN123"
    by (simp add: trim_literals toUpperCase_literals ROUTES_CHN123)
  with 4 have 5: "error (handleSearch ''2025-01-01T00:00:00.000Z''
        (initial_state\<lparr> input := [CHR 0xC2, CHR 0xA0] @ ''chn123''
           @ [CHR 0x09, CHR 0xE3, CHR 0x80, CHR 0x80] \<rparr>)) = []"
    by simp
  from b u 1 2 3 5 show ?thesis by simp
qed

subsection \<open>Runs of the resolver and of the ticking index\<close>

lemma path_extend [simp]: "path (route.extend r m) = path r"
  by (cases r) (simp add: route.defs)

lemma BLR555_path_length: "length (path BLR555) = 5" "path BLR555 \<noteq> []"
  by (simp_all add: BLR555_def)

lemma handleSearch_blr555:
  "info (handleSearch ''2025-01-01T00:00:00.000Z'' (initial_state\<lparr> input := ''blr555'' \<rparr>))
     = Some (route.extend BLR555 \<lparr> lastUpdated = ''2025-01-01T00:00:00.000Z'' \<rparr>)"
  by (simp add: handleSearch_def initial_state_def trim_literals fetchTracking_def
      toUpperCase_def upper_char_def ROUTES_def)

theorem tick_index_clamped_witness:
  "info (handleSearch ''2025-01-01T00:00:00.000Z'' (initial_state\<lparr> input := ''blr555'' \<rparr>))
     = Some (route.extend BLR555 \<lparr> lastUpdated = ''2025-01-01T00:00:00.000Z'' \<rparr>)
   \<and> path (route.extend BLR555 \<lparr> lastUpdated = ''2025-01-01T00:00:00.000Z'' \<rparr>) \<noteq> []
   \<and> idx (handleSearch ''2025-01-01T00:00:00.000Z'' (initial_state\<lparr> input := ''blr555'' \<rparr>)) = 0
   \<and> idx (tick (handleSearch ''2025-01-01T00:00:00.000Z'' (initial_state\<lparr> input := ''blr555'' \<rparr>))) = 1
   \<and> idx ((tick ^^ 3) (handleSearch ''2025-01-01T00:00:00.000Z'' (initial_state\<lparr> input := ''blr555'' \<rparr>)))
       \<le> idx ((tick ^^ 4) (handleSearch ''2025-01-01T00:00:00.000Z'' (initial_state\<lparr> input := ''blr555'' \<rparr>)))
   \<and> idx ((tick ^^ 5) (handleSearch ''2025-01-01T00:00:00.000Z'' (initial_state\<lparr> input := ''blr555'' \<rparr>))) = 4
   \<and> idx ((tick ^^ 9) (handleSearch ''2025-01-01T00:00:00.000Z'' (initial_state\<lparr> input := ''blr555'' \<rparr>))) = 4"
proof -
  let ?s = "handleSearch ''2025-01-01T00:00:00.000Z'' (initial_state\<lparr> input := ''blr555'' \<rparr>)"
  let ?r = "route.extend BLR555 \<lparr> lastUpdated = ''2025-01-01T00:00:00.000Z'' \<rparr>"
  have h1: "info ?s = Some ?r" by (rule handleSearch_blr555)
  have h2: "path ?r \<noteq> []" by (simp add: BLR555_path_length)
  have h3: "idx ?s = 0" by simp
  note T = tick_index_clamped [OF h1 h2 h3]
  from T have T1: "info ?s = Some ?r \<longrightarrow> idx (tick ?s) = min (idx ?s + 1) (int (length (path ?r)) - 1)"
    by blast
  from T have T3: "(3::nat) \<le> 4 \<longrightarrow> idx ((tick ^^ 3) ?s) \<le> idx ((tick ^^ 4) ?s)"
    by blast
  from T have T4: "length (path ?r) \<le> 5 \<longrightarrow> idx ((tick ^^ 5) ?s) = int (length (path ?r)) - 1"
    "length (path ?r) \<le> 9 \<longrightarrow> idx ((tick ^^ 9) ?s) = int (length (path ?r)) - 1"
    by blast+
  have a: "idx (tick ?s) = 1"
    using T1 h1 h3 by (simp add: BLR555_path_length)
  have b: "idx ((tick ^^ 3) ?s) \<le> idx ((tick ^^ 4) ?s)"
    using T3 by simp
  have c: "idx ((tick ^^ 5) ?s) = 4" "idx ((tick ^^ 9) ?s) = 4"
    using T4 by (simp_all add: BLR555_path_length)
  from h1 h2 h3 a b c show ?thesis by blast
qed

subsection \<open>The great-circle distance\<close>

lemma unit_pair_dot:
  fixes c1 s1 c2 s2 :: real
  assumes "c1\<^sup>2 + s1\<^sup>2 = 1" and "c2\<^sup>2 + s2\<^sup>2 = 1"
  shows "\<bar>c1 * c2\<bar> + \<bar>s1 * s2\<bar> \<le> 1"
proof -
  have "0 \<le> (\<bar>c1\<bar> - \<bar>c2\<bar>)\<^sup>2 + (\<bar>s1\<bar> - \<bar>s2\<bar>)\<^sup>2" by simp
  also have "\<dots> = (c1\<^sup>2 + s1\<^sup>2) + (c2\<^sup>2 + s2\<^sup>2) - 2 * (\<bar>c1\<bar> * \<bar>c2\<bar> + \<bar>s1\<bar> * \<bar>s2\<bar>)"
    by (simp add: power2_diff algebra_simps)
  finally show ?thesis using assms by (simp add: abs_mult)
qed

lemma unit_pair_mix:
  fixes c1 s1 c2 s2 t :: real
  assumes "c1\<^sup>2 + s1\<^sup>2 = 1" and "c2\<^sup>2 + s2\<^sup>2 = 1" and "0 \<le> t" and "t \<le> 1"
  shows "0 \<le> (1 - (c1 * c2 + s1 * s2)) / 2 + c1 * c2 * t"
    and "(1 - (c1 * c2 + s1 * s2)) / 2 + c1 * c2 * t \<le> 1"
proof -
  define C where "C = c1 * c2"
  define S where "S = s1 * s2"
  have cs: "\<bar>C\<bar> + \<bar>S\<bar> \<le> 1"
    unfolding C_def S_def by (rule unit_pair_dot [OF assms(1,2)])
  define P where "P = C * (1 - 2 * t)"
  have "\<bar>C * (1 - 2 * t)\<bar> \<le> \<bar>C\<bar> * 1"
    unfolding abs_mult using assms(3,4) by (intro mult_left_mono) (simp_all add: abs_le_iff)
  then have m: "\<bar>P\<bar> \<le> \<bar>C\<bar>" by (simp add: P_def)
  have eq: "(1 - (C + S)) / 2 + C * t = (1 - S - P) / 2"
    by (simp add: P_def field_simps)
  have ab: "S \<le> \<bar>S\<bar>" "- S \<le> \<bar>S\<bar>" "P \<le> \<bar>P\<bar>" "- P \<le> \<bar>P\<bar>"
    by simp_all
  have lo: "0 \<le> (1 - S - P) / 2"
    using cs m ab(1,3) by simp
  have hi: "(1 - S - P) / 2 \<le> 1"
    using cs m ab(2,4) by simp
  have "0 \<le> (1 - (C + S)) / 2 + C * t"
    unfolding eq by (rule lo)
  then show "0 \<le> (1 - (c1 * c2 + s1 * s2)) / 2 + c1 * c2 * t"
    unfolding C_def S_def .
  have "(1 - (C + S)) / 2 + C * t \<le> 1"
    unfolding eq by (rule hi)
  then show "(1 - (c1 * c2 + s1 * s2)) / 2 + c1 * c2 * t \<le> 1"
    unfolding C_def S_def .
qed



lemma sin_squared_le_one: "(sin (z::real))\<^sup>2 \<le> 1"
  using sin_cos_squared_add [of z] zero_le_power2 [of "cos z"] by linarith

lemma sin_squared_half_angle:
  "(sin ((v - u) / 2))\<^sup>2 = (1 - (cos u * cos v + sin u * sin v)) / (2::real)"
proof -
  have "2 * ((v - u) / 2) = v - u" by simp
  then have "cos (v - u) = 1 - 2 * (sin ((v - u) / 2))\<^sup>2"
    using cos_double_sin [of "(v - u) / 2"] by (simp only:)
  then show ?thesis by (simp add: cos_diff mult.commute)
qed

lemma hav_a_bounds: "0 \<le> hav_a p q" "hav_a p q \<le> 1"
proof -
  define p1 where "p1 = fst p * pi / 180"
  define p2 where "p2 = fst q * pi / 180"
  define t where "t = (sin ((snd q - snd p) * pi / 360))\<^sup>2"
  have t: "0 \<le> t" "t \<le> 1"
    unfolding t_def by (simp_all add: sin_squared_le_one)
  have "(fst q - fst p) * pi / 360 = (p2 - p1) / 2"
    by (simp add: p1_def p2_def field_simps)
  then have sx: "(sin ((fst q - fst p) * pi / 360))\<^sup>2
      = (1 - (cos p1 * cos p2 + sin p1 * sin p2)) / 2"
    by (simp only: sin_squared_half_angle)
  have a: "hav_a p q = (1 - (cos p1 * cos p2 + sin p1 * sin p2)) / 2 + cos p1 * cos p2 * t"
    unfolding hav_a_def sx t_def p1_def p2_def ..
  have u: "(cos p1)\<^sup>2 + (sin p1)\<^sup>2 = 1" "(cos p2)\<^sup>2 + (sin p2)\<^sup>2 = 1"
    by simp_all
  show "0 \<le> hav_a p q" unfolding a by (rule unit_pair_mix(1) [OF u t])
  show "hav_a p q \<le> 1" unfolding a by (rule unit_pair_mix(2) [OF u t])
qed

lemma hav_a_number:
  "js_add (js_pow (Math_sin (js_div (toRad (js_sub (Fin lat2) (Fin lat1))) (Fin 2))) 2)
     (js_mul (js_mul (Math_cos (toRad (Fin lat1))) (Math_cos (toRad (Fin lat2))))
        (js_pow (Math_sin (js_div (toRad (js_sub (Fin lon2) (Fin lon1))) (Fin 2))) 2))
   = Fin (hav_a (lat1, lon1) (lat2, lon2))"
  by (simp add: toRad_def js_sub_def hav_a_def)

lemma hav_core:
  assumes "0 \<le> a" and "a \<le> 1"
  shows "js_mul (Fin R) (js_mul (Fin 2)
           (Math_atan2 (Math_sqrt (Fin a)) (Math_sqrt (js_sub (Fin 1) (Fin a)))))
       = Fin (R * (2 * (if a < 1 then arctan (sqrt a / sqrt (1 - a)) else pi / 2)))"
  using assms by (auto simp add: js_sub_def)

lemma haversineMeters_closed:
  "haversineMeters p q =
     Fin (6371000 * (2 * (if hav_a p q < 1
                          then arctan (sqrt (hav_a p q) / sqrt (1 - hav_a p q))
                          else pi / 2)))"
proof (cases p, cases q)
  fix lat1 lon1 lat2 lon2
  assume pq: "p = (lat1, lon1)" "q = (lat2, lon2)"
  show ?thesis
    unfolding pq haversineMeters.simps Let_def hav_a_number
    by (rule hav_core) (rule hav_a_bounds)+
qed

lemma hav_a_sym: "hav_a p q = hav_a q p"
proof -
  have "(fst p - fst q) * pi / 360 = - ((fst q - fst p) * pi / 360)"
       "(snd p - snd q) * pi / 360 = - ((snd q - snd p) * pi / 360)"
    by (simp_all add: field_simps)
  then show ?thesis
    by (simp add: hav_a_def mult.commute)
qed

lemma haversineMeters_sym: "haversineMeters p q = haversineMeters q p"
  by (simp only: haversineMeters_closed hav_a_sym [of p q])

lemma haversineMeters_nonneg: "\<exists>d. 0 \<le> d \<and> haversineMeters p q = Fin d"
proof -
  have "0 \<le> (if hav_a p q < 1 then arctan (sqrt (hav_a p q) / sqrt (1 - hav_a p q)) else pi / 2)"
    using hav_a_bounds [of p q] by simp
  then show ?thesis
    by (simp add: haversineMeters_closed)
qed

lemma haversineMeters_zero_iff: "haversineMeters p q = Fin 0 \<longleftrightarrow> hav_a p q = 0"
  using hav_a_bounds [of p q] by (auto simp add: haversineMeters_closed)

lemma haversineMeters_hav_d: "haversineMeters p q = Fin (hav_d p q)"
  by (simp only: haversineMeters_closed hav_d_def)

lemma hav_d_nonneg: "0 \<le> hav_d p q"
  using hav_a_bounds [of p q] by (simp add: hav_d_def)

lemma hav_d_sym: "hav_d p q = hav_d q p"
  by (simp only: hav_d_def hav_a_sym [of p q])

lemma hav_d_zero_iff: "hav_d p q = 0 \<longleftrightarrow> hav_a p q = 0"
  using hav_a_bounds [of p q] by (auto simp add: hav_d_def)

lemma haversineMeters_self: "haversineMeters p p = Fin 0"
proof -
  have "hav_a p p = 0" by (simp add: hav_a_def)
  then show ?thesis by (simp only: haversineMeters_zero_iff)
qed

lemma haversineMeters_not_NaN: "haversineMeters p q \<noteq> NaN"
  by (simp add: haversineMeters_hav_d)

text \<open>
  Claim C5, as the code has it. For coordinates in range, the distance of a point to
  itself is zero, and the distance from \<open>a\<close> to \<open>b\<close> equals the distance from \<open>b\<close> to
  \<open>a\<close> whenever it is a number. (In doubles it can be \<^verbatim>\<open>NaN\<close> for nearly antipodal
  points, and \<^verbatim>\<open>NaN\<close> equals nothing; the statement leaves that case open.) That a zero
  distance means equal coordinates is not part of it: see the counterexample.
\<close>

theorem haversine_symmetric_zero:
  assumes "- 90 \<le> lat1" "lat1 \<le> 90" "- 90 \<le> lat2" "lat2 \<le> 90"
    and "- 180 \<le> lon1" "lon1 \<le> 180" "- 180 \<le> lon2" "lon2 \<le> 180"
  shows "haversineMeters (lat1, lon1) (lat1, lon1) = Fin 0
       \<and> js_eq (haversineMeters (lat1, lon1) (lat1, lon1)) (Fin 0)
       \<and> (haversineMeters (lat1, lon1) (lat2, lon2) \<noteq> NaN \<longrightarrow>
            js_eq (haversineMeters (lat1, lon1) (lat2, lon2))
                  (haversineMeters (lat2, lon2) (lat1, lon1)))"
proof -
  have z: "haversineMeters (lat1, lon1) (lat1, lon1) = Fin 0"
    by (rule haversineMeters_self)
  then have e: "js_eq (haversineMeters (lat1, lon1) (lat1, lon1)) (Fin 0)"
    by (simp add: js_eq_def)
  have s: "haversineMeters (lat1, lon1) (lat2, lon2) = haversineMeters (lat2, lon2) (lat1, lon1)"
    by (rule haversineMeters_sym)
  have "js_eq (haversineMeters (lat1, lon1) (lat2, lon2))
      (haversineMeters (lat2, lon2) (lat1, lon1))"
    if "haversineMeters (lat1, lon1) (lat2, lon2) \<noteq> NaN"
    using that s by (simp add: js_eq_def)
  with z e show ?thesis by blast
qed

theorem haversine_symmetric_zero_witness:
  "(- 90::real) \<le> 12.9716 \<and> (12.9716::real) \<le> 90 \<and> (- 90::real) \<le> 12.8 \<and> (12.8::real) \<le> 90
   \<and> (- 180::real) \<le> 77.5946 \<and> (77.5946::real) \<le> 180
   \<and> (- 180::real) \<le> 77.4 \<and> (77.4::real) \<le> 180
   \<and> haversineMeters (12.9716, 77.5946) (12.8, 77.4) \<noteq> NaN
   \<and> js_eq (haversineMeters (12.9716, 77.5946) (12.8, 77.4))
            (haversineMeters (12.8, 77.4) (12.9716, 77.5946))
   \<and> js_eq (haversineMeters (12.9716, 77.5946) (12.9716, 77.5946)) (Fin 0)"
proof -
  have r: "(- 90::real) \<le> 12.9716" "(12.9716::real) \<le> 90" "(- 90::real) \<le> 12.8" "(12.8::real) \<le> 90"
    "(- 180::real) \<le> 77.5946" "(77.5946::real) \<le> 180" "(- 180::real) \<le> 77.4" "(77.4::real) \<le> 180"
    by simp_all
  have n: "haversineMeters (12.9716, 77.5946) (12.8, 77.4) \<noteq> NaN"
    by (rule haversineMeters_not_NaN)
  note T = haversine_symmetric_zero [OF r]
  from T n have "js_eq (haversineMeters (12.9716, 77.5946) (12.8, 77.4))
      (haversineMeters (12.8, 77.4) (12.9716, 77.5946))"
    by blast
  with T r n show ?thesis by blast
qed

text \<open>
  Zero distance does not force equal coordinates. At the north pole two different
  longitudes give distance zero: the cosine of the latitude vanishes. The second
  longitude here is \<open>1 / 2 ^ 500\<close>, for which double arithmetic returns zero as well: the
  product of the two cosines with the squared sine underflows.
\<close>

theorem haversine_zero_counterexample:
  "haversineMeters (90, 0) (90, 1 / 2 ^ 500) = Fin 0 \<and> ((90::real), (0::real)) \<noteq> (90, 1 / 2 ^ 500)"
proof -
  have "hav_a (90, 0) (90, 1 / 2 ^ 500) = 0"
    by (simp add: hav_a_def)
  then show ?thesis
    by (simp add: haversineMeters_zero_iff)
qed

subsection \<open>Formatting the ETA\<close>

lemma formatETA_not_finite:
  "\<not> isFinite m \<or> js_lt m (Fin 0) \<Longrightarrow> formatETA m = placeholder"
  by (auto simp add: formatETA_def)

text \<open>
  Claim C3 at the inputs \<^verbatim>\<open>-5\<close> and \<^verbatim>\<open>NaN\<close>. \<^verbatim>\<open>formatETA\<close> returns the string
  literal of the source there, which is the mis-encoded em dash (three characters, eight
  bytes in UTF-8) and not the em dash.
\<close>

theorem formatETA_placeholder_literal:
  "formatETA (Fin (- 5))
     = [CHR 0xC3, CHR 0xA2, CHR 0xE2, CHR 0x82, CHR 0xAC, CHR 0xE2, CHR 0x80, CHR 0x9D]
   \<and> formatETA NaN
     = [CHR 0xC3, CHR 0xA2, CHR 0xE2, CHR 0x82, CHR 0xAC, CHR 0xE2, CHR 0x80, CHR 0x9D]
   \<and> formatETA (Fin (- 5)) \<noteq> em_dash
   \<and> formatETA NaN \<noteq> em_dash"
  by (simp add: formatETA_not_finite placeholder_def em_dash_def)

theorem formatETA_placeholder_literal_witness:
  "formatETA NaN = formatETA (Fin (- 5)) \<and> formatETA NaN \<noteq> [CHR 0xE2, CHR 0x80, CHR 0x94]"
  using formatETA_placeholder_literal by (simp add: em_dash_def)

subsection \<open>Distance along a path\<close>

lemma path_loop_sum:
  "1 \<le> i \<Longrightarrow> path_loop pts i (Fin d) = Fin (d + (\<Sum>k = i..<length pts. hav_d (pts ! (k - 1)) (pts ! k)))"
proof (induction pts i "Fin d" arbitrary: d rule: path_loop.induct)
  case (1 pts i)
  show ?case
  proof (cases "i < length pts")
    case True
    have "path_loop pts i (Fin d) = path_loop pts (i + 1) (Fin (d + hav_d (pts ! (i - 1)) (pts ! i)))"
      using True by (subst path_loop.simps) (simp add: haversineMeters_hav_d)
    also have "\<dots> = Fin (d + hav_d (pts ! (i - 1)) (pts ! i)
        + (\<Sum>k = i + 1..<length pts. hav_d (pts ! (k - 1)) (pts ! k)))"
      using "1.hyps" [of "d + hav_d (pts ! (i - 1)) (pts ! i)"] True "1.prems"
      by (simp add: haversineMeters_hav_d)
    also have "\<dots> = Fin (d + (\<Sum>k = i..<length pts. hav_d (pts ! (k - 1)) (pts ! k)))"
      using True by (simp add: sum.atLeast_Suc_lessThan)
    finally show ?thesis .
  next
    case False
    then show ?thesis by (subst path_loop.simps) simp
  qed
qed

lemma pathDistanceMeters_sum:
  "pathDistanceMeters pts = Fin (\<Sum>k = 1..<length pts. hav_d (pts ! (k - 1)) (pts ! k))"
  using path_loop_sum [of 1 pts 0] by (simp add: pathDistanceMeters_def)

lemma pathDistanceMeters_take:
  "pathDistanceMeters (take m pts)
     = Fin (\<Sum>k = 1..<min m (length pts). hav_d (pts ! (k - 1)) (pts ! k))"
proof -
  have "(\<Sum>k = 1..<min m (length pts). hav_d (take m pts ! (k - 1)) (take m pts ! k))
      = (\<Sum>k = 1..<min m (length pts). hav_d (pts ! (k - 1)) (pts ! k))"
  proof (rule sum.cong)
    fix k assume "k \<in> {1..<min m (length pts)}"
    then have "k - 1 < m" "k < m" by auto
    then show "hav_d (take m pts ! (k - 1)) (take m pts ! k) = hav_d (pts ! (k - 1)) (pts ! k)"
      by simp
  qed simp
  then show ?thesis
    by (simp add: pathDistanceMeters_sum min.commute)
qed

lemma slice_prefix: "0 \<le> e \<Longrightarrow> slice xs 0 e = take (nat e) xs"
  by (simp add: slice_def Let_def min_def)

lemma slice_is_take: "\<exists>m. slice xs 0 e = take m xs"
  by (simp add: slice_def Let_def) blast

subsection \<open>The derived values\<close>

lemma prefix_le_total:
  "\<exists>c t. pathDistanceMeters (slice pts 0 e) = Fin c \<and> pathDistanceMeters pts = Fin t
     \<and> 0 \<le> c \<and> c \<le> t"
proof -
  obtain m where m: "slice pts 0 e = take m pts"
    using slice_is_take by blast
  let ?c = "\<Sum>k = 1..<min m (length pts). hav_d (pts ! (k - 1)) (pts ! k)"
  let ?t = "\<Sum>k = 1..<length pts. hav_d (pts ! (k - 1)) (pts ! k)"
  have "?c \<le> ?t"
    by (intro sum_mono2) (auto simp add: hav_d_nonneg)
  moreover have "0 \<le> ?c"
    by (simp add: sum_nonneg hav_d_nonneg)
  moreover have "pathDistanceMeters (slice pts 0 e) = Fin ?c"
    by (simp only: m pathDistanceMeters_take)
  moreover have "pathDistanceMeters pts = Fin ?t"
    by (rule pathDistanceMeters_sum)
  ultimately show ?thesis by blast
qed

lemma distances_snapshot:
  assumes "info s = Some r"
  shows "\<exists>t c. distances s = Some \<lparr> total = Fin t, covered = Fin c, remaining = Fin (t - c) \<rparr>
           \<and> 0 \<le> c \<and> c \<le> t"
proof -
  obtain c t where ct: "pathDistanceMeters (slice (path r) 0 (idx s + 1)) = Fin c"
      "pathDistanceMeters (path r) = Fin t" "0 \<le> c" "c \<le> t"
    using prefix_le_total [of "path r" "idx s + 1"] by blast
  have "Math_max (Fin 0) (js_sub (Fin t) (Fin c)) = Fin (t - c)"
    using ct(4) by (simp add: Math_max_def js_sub_def)
  then have "distances s = Some \<lparr> total = Fin t, covered = Fin c, remaining = Fin (t - c) \<rparr>"
    by (simp add: distances_def assms ct Let_def)
  with ct(3,4) show ?thesis by blast
qed

lemma progressPct_range: "\<exists>p. progressPct s = Fin p \<and> 0 \<le> p \<and> p \<le> 100"
proof (cases "info s")
  case None
  then show ?thesis by (simp add: progressPct_def distances_def)
next
  case (Some r)
  then obtain t c where d: "distances s = Some \<lparr> total = Fin t, covered = Fin c, remaining = Fin (t - c) \<rparr>"
      and c: "0 \<le> c" "c \<le> t"
    using distances_snapshot by blast
  show ?thesis
  proof (cases "t = 0")
    case True
    with c have "c = 0" by simp
    with True d show ?thesis
      by (simp add: progressPct_def Math_max_def Math_min_def js_or_def)
  next
    case False
    with c have t: "0 < t" by simp
    have q100: "0 \<le> c / t * 100" "c / t * 100 \<le> 100"
      using c t by (simp_all add: field_simps)
    have "js_mul (js_div (Fin c) (Fin t)) (Fin 100) = Fin (c / t * 100)"
      using False by simp
    with d have "progressPct s = js_or (Math_min (Fin 100) (Math_max (Fin 0) (Fin (c / t * 100)))) (Fin 0)"
      by (simp add: progressPct_def)
    also have "\<dots> = Fin (c / t * 100)"
      using q100 by (auto simp add: Math_max_def Math_min_def js_or_def)
    finally show ?thesis using q100 by blast
  qed
qed

subsection \<open>The claims about the derived values\<close>




lemma progressPct_zero_total:
  assumes "distances s = Some d" and "total d = Fin 0"
  shows "progressPct s = Fin 0"
proof -
  from assms(1) obtain r where r: "info s = Some r"
    by (cases "info s") (simp_all add: distances_def)
  then obtain t c where d: "distances s = Some \<lparr> total = Fin t, covered = Fin c, remaining = Fin (t - c) \<rparr>"
      and c: "0 \<le> c" "c \<le> t"
    using distances_snapshot by blast
  from d assms have "t = 0" by auto
  with c have "c = 0" by simp
  with \<open>t = 0\<close> d show ?thesis
    by (simp add: progressPct_def Math_max_def Math_min_def js_or_def)
qed

text \<open>
  Claim C10. In every state the progress percentage is a finite number between 0 and
  100, never \<^verbatim>\<open>NaN\<close>; where the total distance is zero the quotient is \<^verbatim>\<open>NaN\<close>
  and \<^verbatim>\<open>|| 0\<close> turns it into 0.
\<close>

theorem progressPct_bounded:
  "(\<exists>p. progressPct s = Fin p \<and> 0 \<le> p \<and> p \<le> 100)
   \<and> progressPct s \<noteq> NaN
   \<and> (\<forall>d. distances s = Some d \<and> total d = Fin 0 \<longrightarrow> progressPct s = Fin 0)"
proof -
  obtain p where p: "progressPct s = Fin p" "0 \<le> p" "p \<le> 100"
    using progressPct_range by blast
  then have "progressPct s \<noteq> NaN" by simp
  with p progressPct_zero_total show ?thesis by blast
qed

lemma single_point_distances:
  "distances (initial_state\<lparr> info := Some (route.extend (BLR555\<lparr> path := [(12.9716, 77.5946)] \<rparr>)
      \<lparr> lastUpdated = ''2025-01-01T00:00:00.000Z'' \<rparr>) \<rparr>)
   = Some \<lparr> total = Fin 0, covered = Fin 0, remaining = Fin 0 \<rparr>"
  by (simp add: distances_def Let_def pathDistanceMeters_sum slice_prefix initial_state_def
      Math_max_def js_sub_def)

theorem progressPct_bounded_witness:
  "distances (initial_state\<lparr> info := Some (route.extend (BLR555\<lparr> path := [(12.9716, 77.5946)] \<rparr>)
      \<lparr> lastUpdated = ''2025-01-01T00:00:00.000Z'' \<rparr>) \<rparr>)
     = Some \<lparr> total = Fin 0, covered = Fin 0, remaining = Fin 0 \<rparr>
   \<and> total \<lparr> total = Fin 0, covered = Fin 0, remaining = Fin 0 \<rparr> = Fin 0
   \<and> progressPct (initial_state\<lparr> info := Some (route.extend (BLR555\<lparr> path := [(12.9716, 77.5946)] \<rparr>)
      \<lparr> lastUpdated = ''2025-01-01T00:00:00.000Z'' \<rparr>) \<rparr>) = Fin 0"
proof -
  note d = single_point_distances
  have t: "total \<lparr> total = Fin 0, covered = Fin 0, remaining = Fin 0 \<rparr> = Fin 0" by simp
  from progressPct_bounded [of "initial_state\<lparr> info := Some (route.extend
      (BLR555\<lparr> path := [(12.9716, 77.5946)] \<rparr>) \<lparr> lastUpdated = ''2025-01-01T00:00:00.000Z'' \<rparr>) \<rparr>"] d t
  show ?thesis by blast
qed

end
